theory Spec2Isabelle
  imports
    Complex_Main
    "HOL-Library.Char_ord"
    "HOL-Library.List_Lexorder"
    "HOL-Library.Product_Lexorder"
    "HOL-Library.Multiset"
begin

section \<open>Parsed JSON documents\<close>

text \<open>
  \<^verbatim>\<open>json.load\<close> returns \<^verbatim>\<open>None\<close>, a \<^verbatim>\<open>bool\<close>, an \<^verbatim>\<open>int\<close>, a \<^verbatim>\<open>float\<close>, a
  \<^verbatim>\<open>str\<close>, a \<^verbatim>\<open>list\<close> or a \<^verbatim>\<open>dict\<close> with \<^verbatim>\<open>str\<close> keys. A dict is modelled by
  its \<^verbatim>\<open>items()\<close> in insertion order; the keys of a dict that \<^verbatim>\<open>json.load\<close> built
  are distinct. A string is its UTF-8 byte sequence, on which the bytewise lexicographic
  order (\<open>Char_ord\<close>, \<open>List_Lexorder\<close>) is Python's order on \<^verbatim>\<open>str\<close>. A float is
  the rational it denotes, an infinity or NaN; no float arithmetic is modelled.
\<close>

datatype pyfloat = Finite rat | PosInf | NegInf | NaN

datatype json =
    JNull
  | JBool bool
  | JInt int
  | JFloat pyfloat
  | JStr string
  | JList "json list"
  | JDict "(string \<times> json) list"

datatype pytype = TNone | TBool | TInt | TFloat | TStr | TList | TDict

fun type_of :: "json \<Rightarrow> pytype" where
  "type_of JNull = TNone"
| "type_of (JBool b) = TBool"
| "type_of (JInt i) = TInt"
| "type_of (JFloat f) = TFloat"
| "type_of (JStr s) = TStr"
| "type_of (JList xs) = TList"
| "type_of (JDict kv) = TDict"

fun is_dict :: "json \<Rightarrow> bool" where
  "is_dict (JDict kv) = True"
| "is_dict v = False"

fun dict_items :: "json \<Rightarrow> (string \<times> json) list option" where
  "dict_items (JDict kv) = Some kv"
| "dict_items v = None"

section \<open>Errors\<close>

text \<open>
  One constructor for each \<^verbatim>\<open>raise\<close> of the program (\<open>InputNotFound\<close>: line 97,
  \<open>UnsupportedShape\<close>: line 110, \<open>MissingRequiredFields\<close>: line 45,
  \<open>EmptyFlattenResult\<close>: line 90), for the \<^verbatim>\<open>ValueError\<close> of \<^verbatim>\<open>int(...)\<close> at lines
  83 and 84 (\<open>CoercionFailure\<close>, with the offending label), and for the exceptions pandas
  raises inside the calls of \<^verbatim>\<open>main\<close>. \<open>Unmodelled\<close> marks the inputs on which the
  behaviour of pandas is not described here; no statement below asserts it as the
  program's outcome.
\<close>

datatype error =
    InputNotFound
  | UnsupportedShape pytype
  | MissingRequiredFields "string set" "string list"
  | EmptyFlattenResult
  | CoercionFailure string
  | KeyError string
  | NotOneDimensional string
  | CannotCastToInt64 string
  | LabelNotUnique string
  | AlreadyExists string
  | Unmodelled string

section \<open>The builtins \<^verbatim>\<open>int\<close> and \<^verbatim>\<open>str\<close>\<close>

text \<open>
  \<^verbatim>\<open>int(s)\<close> on a \<^verbatim>\<open>str\<close>, base 10: surrounding whitespace is stripped, one sign is
  allowed, the digits may be grouped by single underscores, and CPython rejects more than
  4300 digits. This is the ASCII fragment: CPython also accepts Unicode decimal digits and
  Unicode whitespace, which are bytes from 128 on here and rejected.
\<close>

definition is_space :: "char \<Rightarrow> bool" where
  "is_space c = (of_char c \<in> {9, 10, 11, 12, 13, 32 :: nat})"

definition is_digit :: "char \<Rightarrow> bool" where
  "is_digit c = (48 \<le> (of_char c :: nat) \<and> (of_char c :: nat) \<le> 57)"

definition digit_val :: "char \<Rightarrow> int" where
  "digit_val c = int (of_char c) - 48"

fun digits_of :: "bool \<Rightarrow> string \<Rightarrow> string option" where
  "digits_of prev [] = (if prev then Some [] else None)"
| "digits_of prev (c # cs) =
     (if is_digit c then map_option (Cons c) (digits_of True cs)
      else if c = CHR ''_'' \<and> prev then digits_of False cs
      else None)"

definition int_max_str_digits :: nat where
  "int_max_str_digits = 4300"

definition strip :: "string \<Rightarrow> string" where
  "strip s = rev (dropWhile is_space (rev (dropWhile is_space s)))"

fun split_sign :: "string \<Rightarrow> bool \<times> string" where
  "split_sign [] = (False, [])"
| "split_sign (c # cs) =
     (if c = CHR ''-'' then (True, cs)
      else if c = CHR ''+'' then (False, cs)
      else (False, c # cs))"

definition py_int :: "string \<Rightarrow> int option" where
  "py_int s =
     (case split_sign (strip s) of (neg, body) \<Rightarrow>
        (case digits_of False body of
           None \<Rightarrow> None
         | Some ds \<Rightarrow>
             if int_max_str_digits < length ds then None
             else let n = foldl (\<lambda>a d. 10 * a + digit_val d) 0 ds
                  in Some (if neg then - n else n)))"

text \<open>
  \<^verbatim>\<open>str(v)\<close>: a \<^verbatim>\<open>str\<close> is returned as it is; \<^verbatim>\<open>None\<close> and the booleans print their
  names. For every other value \<^verbatim>\<open>str\<close> is \<^verbatim>\<open>repr\<close>, which is a parameter of the model
  (the decimal digits of an int, the shortest round-trip form of a float, the quoting of
  the strings inside a list or dict).
\<close>

fun py_str :: "(json \<Rightarrow> string) \<Rightarrow> json \<Rightarrow> string" where
  "py_str repr (JStr s) = s"
| "py_str repr JNull = ''None''"
| "py_str repr (JBool b) = (if b then ''True'' else ''False'')"
| "py_str repr v = repr v"

section \<open>Data frames\<close>

text \<open>
  A frame is its column labels, in order and possibly repeated, and its rows, each a list
  of cells aligned with the labels. \<open>NA\<close> is the missing marker (NaN in a float or object
  column, \<^verbatim>\<open>pd.NA\<close> in an \<^verbatim>\<open>Int64\<close> column), \<open>Obj v\<close> a value as the document gave it,
  \<open>I64 i\<close> a value of an \<^verbatim>\<open>Int64\<close> column.
\<close>

datatype cell = NA | Obj json | I64 int

record frame =
  columns :: "string list"
  rows :: "cell list list"

fun uniq :: "'a list \<Rightarrow> 'a list" where
  "uniq [] = []"
| "uniq (x # xs) = x # filter (\<lambda>y. y \<noteq> x) (uniq xs)"

text \<open>
  \<^verbatim>\<open>pd.DataFrame(data)\<close> over a list of dicts: the columns are the keys in the order of
  their first appearance, and a record without a key has \<open>NA\<close> there. Over a list with
  an element that is not a dict pandas builds positional columns or raises; that is not
  described.
\<close>

definition record_row :: "string list \<Rightarrow> (string \<times> json) list \<Rightarrow> cell list" where
  "record_row cols r = map (\<lambda>c. case map_of r c of None \<Rightarrow> NA | Some v \<Rightarrow> Obj v) cols"

definition DataFrame :: "json list \<Rightarrow> error + frame" where
  "DataFrame data =
     (case those (map dict_items data) of
        None \<Rightarrow> Inl (Unmodelled ''DataFrame over rows that are not mappings'')
      | Some recs \<Rightarrow>
          let cols = uniq (concat (map (map fst) recs))
          in Inr \<lparr>columns = cols, rows = map (record_row cols) recs\<rparr>)"

text \<open>\<^verbatim>\<open>df.rename(columns=m)\<close>: every label that is a key of \<open>m\<close> is replaced.\<close>

definition rename :: "(string \<times> string) list \<Rightarrow> frame \<Rightarrow> frame" where
  "rename m df =
     df\<lparr>columns := map (\<lambda>c. case map_of m c of Some n \<Rightarrow> n | None \<Rightarrow> c) (columns df)\<rparr>"

text \<open>
  \<^verbatim>\<open>df[labels]\<close>: for each requested label in turn, every column that carries it;
  \<^verbatim>\<open>KeyError\<close> when a label is absent.
\<close>

definition pick :: "string list \<Rightarrow> string list \<Rightarrow> 'a list \<Rightarrow> 'a list" where
  "pick labels cols xs =
     concat (map (\<lambda>l. map snd (filter (\<lambda>(c, x). c = l) (zip cols xs))) labels)"

definition select_columns :: "string list \<Rightarrow> frame \<Rightarrow> error + frame" where
  "select_columns labels df =
     (case filter (\<lambda>l. l \<notin> set (columns df)) labels of
        l # ls \<Rightarrow> Inl (KeyError l)
      | [] \<Rightarrow> Inr \<lparr>columns = pick labels (columns df) (columns df),
                  rows = map (pick labels (columns df)) (rows df)\<rparr>)"

section \<open>The list flattener (lines 10 to 52)\<close>

definition rename_map :: "(string \<times> string) list" where
  "rename_map =
     [(''Book'', ''book''), (''book_name'', ''book''), (''bookName'', ''book''),
      (''Chapter'', ''chapter''), (''chapterNumber'', ''chapter''),
      (''Verse'', ''verse''), (''verseNumber'', ''verse''),
      (''Text'', ''text''), (''verseText'', ''text''), (''content'', ''text'')]"

definition required :: "string set" where
  "required = {''book'', ''chapter'', ''verse'', ''text''}"

definition flatten_from_list :: "json list \<Rightarrow> error + frame" where
  "flatten_from_list data =
     (case DataFrame data of
        Inl e \<Rightarrow> Inl e
      | Inr df0 \<Rightarrow>
          let df = rename (filter (\<lambda>(old, new). old \<in> set (columns df0)) rename_map) df0;
              missing = required - set (columns df)
          in if missing \<noteq> {} then Inl (MissingRequiredFields missing (columns df))
             else select_columns [''book'', ''chapter'', ''verse'', ''text''] df)"

section \<open>The nested flattener (lines 55 to 92)\<close>

text \<open>
  The three loops, innermost first; \<open>records\<close> is the list the loops append to. In the
  dict display of lines 81 to 86 \<^verbatim>\<open>int(chapter)\<close> is evaluated before \<^verbatim>\<open>int(verse)\<close>.
\<close>

definition verse_record :: "string \<Rightarrow> int \<Rightarrow> int \<Rightarrow> string \<Rightarrow> json" where
  "verse_record book c v t =
     JDict [(''book'', JStr book), (''chapter'', JInt c), (''verse'', JInt v), (''text'', JStr t)]"

fun verses_loop ::
  "(json \<Rightarrow> string) \<Rightarrow> string \<Rightarrow> string \<Rightarrow> (string \<times> json) list \<Rightarrow> json list \<Rightarrow> error + json list"
where
  "verses_loop repr book chapter [] records = Inr records"
| "verses_loop repr book chapter ((verse, text) # rest) records =
     (case py_int chapter of
        None \<Rightarrow> Inl (CoercionFailure chapter)
      | Some c \<Rightarrow>
          (case py_int verse of
             None \<Rightarrow> Inl (CoercionFailure verse)
           | Some v \<Rightarrow>
               verses_loop repr book chapter rest
                 (records @ [verse_record book c v (py_str repr text)])))"

fun chapters_loop ::
  "(json \<Rightarrow> string) \<Rightarrow> string \<Rightarrow> (string \<times> json) list \<Rightarrow> json list \<Rightarrow> error + json list"
where
  "chapters_loop repr book [] records = Inr records"
| "chapters_loop repr book ((chapter, verses) # rest) records =
     (case dict_items verses of
        None \<Rightarrow> chapters_loop repr book rest records
      | Some vs \<Rightarrow>
          (case verses_loop repr book chapter vs records of
             Inl e \<Rightarrow> Inl e
           | Inr records' \<Rightarrow> chapters_loop repr book rest records'))"

fun books_loop ::
  "(json \<Rightarrow> string) \<Rightarrow> (string \<times> json) list \<Rightarrow> json list \<Rightarrow> error + json list"
where
  "books_loop repr [] records = Inr records"
| "books_loop repr ((book, chapters) # rest) records =
     (case dict_items chapters of
        None \<Rightarrow> books_loop repr rest records
      | Some cs \<Rightarrow>
          (case chapters_loop repr book cs records of
             Inl e \<Rightarrow> Inl e
           | Inr records' \<Rightarrow> books_loop repr rest records'))"

definition flatten_from_nested :: "(json \<Rightarrow> string) \<Rightarrow> (string \<times> json) list \<Rightarrow> error + frame" where
  "flatten_from_nested repr data =
     (case books_loop repr data [] of
        Inl e \<Rightarrow> Inl e
      | Inr records \<Rightarrow> if records = [] then Inl EmptyFlattenResult else DataFrame records)"

section \<open>Shape detection (lines 103 to 110)\<close>

definition detect_and_flatten :: "(json \<Rightarrow> string) \<Rightarrow> json \<Rightarrow> error + frame" where
  "detect_and_flatten repr data =
     (case data of
        JList xs \<Rightarrow> flatten_from_list xs
      | JDict kv \<Rightarrow> flatten_from_nested repr kv
      | _ \<Rightarrow> Inl (UnsupportedShape (type_of data)))"

section \<open>Normalising, sorting and numbering (lines 113 to 119)\<close>

text \<open>
  \<^verbatim>\<open>pd.to_numeric(..., errors="coerce")\<close> reads a string with pandas's own number
  grammar, which is a parameter here: a string is unreadable, or reads as an integer, or
  reads as a number that is no integer.
\<close>

datatype parsed = Unparsed | Integral int | NonIntegral

text \<open>
  Integers are carried where both of pandas's carriers of a numeric column, \<^verbatim>\<open>int64\<close>
  and \<^verbatim>\<open>float64\<close>, hold them exactly; beyond that the outcome is not described.
\<close>

definition exact_int :: "string \<Rightarrow> int \<Rightarrow> error + cell" where
  "exact_int col i =
     (if - (2 ^ 53) \<le> i \<and> i \<le> 2 ^ 53 then Inr (I64 i)
      else Inl (Unmodelled ''integer beyond 2 ** 53''))"

text \<open>
  One cell through \<^verbatim>\<open>pd.to_numeric(..., errors="coerce").astype("Int64")\<close>: what does
  not read as a number becomes \<open>NA\<close>, and a number that is no integer makes \<^verbatim>\<open>astype\<close>
  raise \<^verbatim>\<open>TypeError\<close>.
\<close>

fun to_Int64 :: "(string \<Rightarrow> parsed) \<Rightarrow> string \<Rightarrow> cell \<Rightarrow> error + cell" where
  "to_Int64 parse col NA = Inr NA"
| "to_Int64 parse col (I64 i) = Inr (I64 i)"
| "to_Int64 parse col (Obj JNull) = Inr NA"
| "to_Int64 parse col (Obj (JBool b)) = Inr (I64 (if b then 1 else 0))"
| "to_Int64 parse col (Obj (JInt i)) = exact_int col i"
| "to_Int64 parse col (Obj (JFloat (Finite q))) =
     (if q = of_int \<lfloor>q\<rfloor> then exact_int col \<lfloor>q\<rfloor> else Inl (CannotCastToInt64 col))"
| "to_Int64 parse col (Obj (JFloat NaN)) = Inr NA"
| "to_Int64 parse col (Obj (JFloat PosInf)) = Inl (CannotCastToInt64 col)"
| "to_Int64 parse col (Obj (JFloat NegInf)) = Inl (CannotCastToInt64 col)"
| "to_Int64 parse col (Obj (JStr s)) =
     (case parse s of
        Unparsed \<Rightarrow> Inr NA
      | Integral i \<Rightarrow> exact_int col i
      | NonIntegral \<Rightarrow> Inl (CannotCastToInt64 col))"
| "to_Int64 parse col (Obj (JList xs)) = Inr NA"
| "to_Int64 parse col (Obj (JDict kv)) = Inr NA"

fun collect :: "(error + 'a) list \<Rightarrow> error + 'a list" where
  "collect [] = Inr []"
| "collect (x # xs) =
     (case x of
        Inl e \<Rightarrow> Inl e
      | Inr v \<Rightarrow> (case collect xs of Inl e \<Rightarrow> Inl e | Inr vs \<Rightarrow> Inr (v # vs)))"

text \<open>The cell of a row under a label (the first such column).\<close>

definition cell_at :: "string list \<Rightarrow> cell list \<Rightarrow> string \<Rightarrow> cell" where
  "cell_at cols r l = (case map_of (zip cols r) l of Some x \<Rightarrow> x | None \<Rightarrow> NA)"

definition set_cell :: "string list \<Rightarrow> string \<Rightarrow> cell list \<Rightarrow> cell \<Rightarrow> cell list" where
  "set_cell cols l r v = map (\<lambda>(c, x). if c = l then v else x) (zip cols r)"

text \<open>
  \<^verbatim>\<open>df[col] = pd.to_numeric(df[col], errors="coerce").astype("Int64")\<close>. Under a
  repeated label \<^verbatim>\<open>df[col]\<close> is a frame and \<^verbatim>\<open>to_numeric\<close> raises \<^verbatim>\<open>TypeError\<close>.
\<close>

definition coerce_column :: "(string \<Rightarrow> parsed) \<Rightarrow> string \<Rightarrow> frame \<Rightarrow> error + frame" where
  "coerce_column parse col df =
     (if col \<notin> set (columns df) then Inl (KeyError col)
      else if count_list (columns df) col \<noteq> 1 then Inl (NotOneDimensional col)
      else case collect (map (\<lambda>r. to_Int64 parse col (cell_at (columns df) r col)) (rows df)) of
             Inl e \<Rightarrow> Inl e
           | Inr vs \<Rightarrow> Inr (df\<lparr>rows := map2 (set_cell (columns df) col) (rows df) vs\<rparr>))"

text \<open>
  The sort key of a row: missing values go last in each of the three columns
  (\<^verbatim>\<open>na_position="last"\<close>, the default). A book column is ordered as text; on a book
  value that is neither text nor missing the order pandas uses is not described.
\<close>

fun text_or_missing :: "cell \<Rightarrow> bool" where
  "text_or_missing NA = True"
| "text_or_missing (Obj JNull) = True"
| "text_or_missing (Obj (JStr s)) = True"
| "text_or_missing x = False"

fun book_key :: "cell \<Rightarrow> nat \<times> string" where
  "book_key (Obj (JStr s)) = (0, s)"
| "book_key x = (1, [])"

fun int_key :: "cell \<Rightarrow> nat \<times> int" where
  "int_key (I64 i) = (0, i)"
| "int_key x = (1, 0)"

definition row_key :: "string list \<Rightarrow> cell list \<Rightarrow> (nat \<times> string) \<times> (nat \<times> int) \<times> (nat \<times> int)" where
  "row_key cols r =
     (book_key (cell_at cols r ''book''), int_key (cell_at cols r ''chapter''), int_key (cell_at cols r ''verse''))"

text \<open>
  \<^verbatim>\<open>df.sort_values(["book", "chapter", "verse"]).reset_index(drop=True)\<close>: a stable sort
  on the three keys; \<^verbatim>\<open>ValueError\<close> when one of the labels is repeated.
\<close>

definition sort_values :: "frame \<Rightarrow> error + frame" where
  "sort_values df =
     (case filter (\<lambda>l. count_list (columns df) l \<noteq> 1) [''book'', ''chapter'', ''verse''] of
        l # ls \<Rightarrow> Inl (if l \<in> set (columns df) then LabelNotUnique l else KeyError l)
      | [] \<Rightarrow>
          if \<exists>r \<in> set (rows df). \<not> text_or_missing (cell_at (columns df) r ''book'')
          then Inl (Unmodelled ''book value that is not text'')
          else Inr (df\<lparr>rows := sort_key (row_key (columns df)) (rows df)\<rparr>))"

text \<open>\<^verbatim>\<open>df.insert(0, "id", range(len(df)))\<close>.\<close>

definition insert_id :: "frame \<Rightarrow> error + frame" where
  "insert_id df =
     (if ''id'' \<in> set (columns df) then Inl (AlreadyExists ''id'')
      else Inr \<lparr>columns = ''id'' # columns df,
                rows = map2 (\<lambda>i r. I64 (int i) # r) [0 ..< length (rows df)] (rows df)\<rparr>)"

definition normalizer :: "(string \<Rightarrow> parsed) \<Rightarrow> frame \<Rightarrow> error + frame" where
  "normalizer parse df =
     (case coerce_column parse ''chapter'' df of
        Inl e \<Rightarrow> Inl e
      | Inr df1 \<Rightarrow>
          (case coerce_column parse ''verse'' df1 of
             Inl e \<Rightarrow> Inl e
           | Inr df2 \<Rightarrow>
               (case sort_values df2 of
                  Inl e \<Rightarrow> Inl e
                | Inr df3 \<Rightarrow> insert_id df3)))"

section \<open>The program\<close>

text \<open>
  \<open>main\<close> takes the parsed content of the input file, \<open>None\<close> when the file does not
  exist, and returns the table that \<^verbatim>\<open>to_csv\<close> writes; on \<open>Inl\<close> the program has raised
  before line 122 and no file is written.
\<close>

definition main :: "(json \<Rightarrow> string) \<Rightarrow> (string \<Rightarrow> parsed) \<Rightarrow> json option \<Rightarrow> error + frame" where
  "main repr parse file =
     (case file of
        None \<Rightarrow> Inl InputNotFound
      | Some data \<Rightarrow>
          (case detect_and_flatten repr data of
             Inl e \<Rightarrow> Inl e
           | Inr df \<Rightarrow> normalizer parse df))"

text \<open>A number grammar for the examples: the decimal integers that \<^verbatim>\<open>int\<close> reads.\<close>

definition decimal_parse :: "string \<Rightarrow> parsed" where
  "decimal_parse s = (case py_int s of None \<Rightarrow> Unparsed | Some i \<Rightarrow> Integral i)"

text \<open>A stand-in for \<^verbatim>\<open>repr\<close> in the examples, whose texts are strings.\<close>

definition no_repr :: "json \<Rightarrow> string" where
  "no_repr v = []"

section \<open>Specification-side notions\<close>

text \<open>A leaf of a nested document: book, chapter label, verse label and the value under them,
  reached through a book entry and a chapter entry whose values are mappings; \<open>leaves\<close>
  lists them in document order.\<close>

type_synonym leaf = "string \<times> string \<times> string \<times> json"

definition chapter_leaves :: "string \<Rightarrow> (string \<times> json) list \<Rightarrow> leaf list" where
  "chapter_leaves b cs =
     concat (map (\<lambda>(c, verses). case dict_items verses of
                                   None \<Rightarrow> []
                                 | Some vs \<Rightarrow> map (\<lambda>(v, t). (b, c, v, t)) vs) cs)"

definition leaves :: "(string \<times> json) list \<Rightarrow> leaf list" where
  "leaves data =
     concat (map (\<lambda>(b, chapters). case dict_items chapters of
                                     None \<Rightarrow> []
                                   | Some cs \<Rightarrow> chapter_leaves b cs) data)"

text \<open>One pass over the leaves that does to each what the body of the innermost loop does; the
  three loops are shown to be this pass.\<close>

fun emit :: "(json \<Rightarrow> string) \<Rightarrow> leaf list \<Rightarrow> error + json list" where
  "emit repr [] = Inr []"
| "emit repr ((b, c, v, t) # ls) =
     (case py_int c of
        None \<Rightarrow> Inl (CoercionFailure c)
      | Some ci \<Rightarrow>
          (case py_int v of
             None \<Rightarrow> Inl (CoercionFailure v)
           | Some vi \<Rightarrow>
               (case emit repr ls of
                  Inl e \<Rightarrow> Inl e
                | Inr rs \<Rightarrow> Inr (verse_record b ci vi (py_str repr t) # rs))))"

definition andthen :: "json list \<Rightarrow> error + json list \<Rightarrow> error + json list" where
  "andthen acc r = (case r of Inl e \<Rightarrow> Inl e | Inr rs \<Rightarrow> Inr (acc @ rs))"

text \<open>The row of the flattened frame that a leaf gives when both of its labels read as integers.\<close>

definition leaf_row :: "(json \<Rightarrow> string) \<Rightarrow> leaf \<Rightarrow> cell list option" where
  "leaf_row repr l =
     (case l of (b, c, v, t) \<Rightarrow>
        (case py_int c of
           None \<Rightarrow> None
         | Some ci \<Rightarrow>
             (case py_int v of
                None \<Rightarrow> None
              | Some vi \<Rightarrow>
                  Some [Obj (JStr b), Obj (JInt ci), Obj (JInt vi), Obj (JStr (py_str repr t))])))"

definition canonical_columns :: "string list" where
  "canonical_columns = [''book'', ''chapter'', ''verse'', ''text'']"

definition is_verse_record :: "json \<Rightarrow> bool" where
  "is_verse_record r = (\<exists>b c v t. r = verse_record b c v t)"

fun record_cells :: "json \<Rightarrow> cell list" where
  "record_cells (JDict kv) = record_row canonical_columns kv"
| "record_cells v = []"

text \<open>The chapter and verse labels of a list of leaves.\<close>

definition labels :: "leaf list \<Rightarrow> string set" where
  "labels ls = (\<lambda>l. fst (snd l)) ` set ls \<union> (\<lambda>l. fst (snd (snd l))) ` set ls"

text \<open>Example documents and tables.\<close>

definition genesis :: "(string \<times> json) list" where
  "genesis = [(''Genesis'', JDict [(''1'', JDict [(''1'', JStr ''a''), (''2'', JStr ''b'')])])]"


definition unsorted3 :: "json list" where
  "unsorted3 =
     [JDict [(''book'', JStr ''B''), (''chapter'', JInt 2), (''verse'', JInt 1), (''text'', JStr ''x'')],
      JDict [(''book'', JStr ''A''), (''chapter'', JInt 1), (''verse'', JInt 5), (''text'', JStr ''y'')],
      JDict [(''book'', JStr ''A''), (''chapter'', JInt 1), (''verse'', JInt 1), (''text'', JStr ''z'')]]"







text \<open>The canonical name of a field under the alias table, and the columns a sequence of
  mappings shows: its keys in order of first appearance.\<close>

definition canonical :: "string \<Rightarrow> string" where
  "canonical c = (case map_of rename_map c of Some n \<Rightarrow> n | None \<Rightarrow> c)"

fun items_of :: "json \<Rightarrow> (string \<times> json) list" where
  "items_of (JDict kv) = kv"
| "items_of v = []"

definition observed_fields :: "json list \<Rightarrow> string list" where
  "observed_fields data = uniq (concat (map (\<lambda>x. map fst (items_of x)) data))"

definition canonical_frame :: "json list \<Rightarrow> frame" where
  "canonical_frame data =
     \<lparr>columns = map canonical (observed_fields data),
      rows = map (\<lambda>x. record_row (observed_fields data) (items_of x)) data\<rparr>"


definition genesis_frame :: frame where
  "genesis_frame =
     \<lparr>columns = [''book'', ''chapter'', ''verse'', ''text''],
      rows = [[Obj (JStr ''Genesis''), Obj (JInt 1), Obj (JInt 1), Obj (JStr ''a'')],
              [Obj (JStr ''Genesis''), Obj (JInt 1), Obj (JInt 2), Obj (JStr ''b'')]]\<rparr>"


definition sorted3_out :: frame where
  "sorted3_out =
     \<lparr>columns = [''id'', ''book'', ''chapter'', ''verse'', ''text''],
      rows = [[I64 0, Obj (JStr ''A''), I64 1, I64 1, Obj (JStr ''z'')],
              [I64 1, Obj (JStr ''A''), I64 1, I64 5, Obj (JStr ''y'')],
              [I64 2, Obj (JStr ''B''), I64 2, I64 1, Obj (JStr ''x'')]]\<rparr>"



text \<open>\<open>use_alias c a\<close> rewrites a record to use the alias \<open>a\<close> where it had the field \<open>c\<close>.\<close>

definition swap_key :: "string \<Rightarrow> string \<Rightarrow> string \<Rightarrow> string" where
  "swap_key c a k = (if k = c then a else k)"

fun use_alias :: "string \<Rightarrow> string \<Rightarrow> json \<Rightarrow> json" where
  "use_alias c a (JDict kv) = JDict (map (\<lambda>(k, v). (swap_key c a k, v)) kv)"
| "use_alias c a x = x"

definition mixed2 :: "json list" where
  "mixed2 =
     [JDict [(''Book'', JStr ''A''), (''chapter'', JInt 1), (''verse'', JInt 1), (''text'', JStr ''p'')],
      JDict [(''book'', JStr ''B''), (''chapter'', JInt 1), (''verse'', JInt 1), (''text'', JStr ''q'')]]"

definition canon2 :: "json list" where
  "canon2 =
     [JDict [(''book'', JStr ''A''), (''chapter'', JInt 1), (''verse'', JInt 1), (''text'', JStr ''p'')],
      JDict [(''book'', JStr ''B''), (''chapter'', JInt 1), (''verse'', JInt 1), (''text'', JStr ''q'')]]"

definition alias2 :: "json list" where
  "alias2 =
     [JDict [(''Book'', JStr ''A''), (''chapter'', JInt 1), (''verse'', JInt 1), (''text'', JStr ''p'')],
      JDict [(''Book'', JStr ''B''), (''chapter'', JInt 1), (''verse'', JInt 1), (''text'', JStr ''q'')]]"

lemma andthen_simps [simp]:
  "andthen acc (Inl e) = Inl e" "andthen acc (Inr rs) = Inr (acc @ rs)"
  by (simp_all add: andthen_def)

lemma andthen_Nil [simp]: "andthen [] r = r"
  by (cases r) simp_all

lemma andthen_assoc [simp]: "andthen acc (andthen rs r) = andthen (acc @ rs) r"
  by (cases r) simp_all

lemma andthen_Cons: "andthen (x # xs) r = (case andthen xs r of Inl e \<Rightarrow> Inl e | Inr rs \<Rightarrow> Inr (x # rs))"
  by (cases r) simp_all

lemma emit_append:
  "emit repr (xs @ ys) =
     (case emit repr xs of Inl e \<Rightarrow> Inl e | Inr rs \<Rightarrow> andthen rs (emit repr ys))"
  by (induction xs) (auto simp: andthen_Cons split: option.splits sum.splits)

lemma verses_loop_emit:
  "verses_loop repr b c vs acc = andthen acc (emit repr (map (\<lambda>(v, t). (b, c, v, t)) vs))"
  by (induction vs arbitrary: acc) (auto split: option.splits sum.splits)

lemma chapters_loop_emit:
  "chapters_loop repr b cs acc = andthen acc (emit repr (chapter_leaves b cs))"
proof (induction cs arbitrary: acc)
  case Nil
  show ?case by (simp add: chapter_leaves_def)
next
  case (Cons x cs)
  obtain c verses where x: "x = (c, verses)" by (cases x)
  have cl: "chapter_leaves b (x # cs) =
      (case dict_items verses of None \<Rightarrow> [] | Some vs \<Rightarrow> map (\<lambda>(v, t). (b, c, v, t)) vs)
        @ chapter_leaves b cs"
    by (simp add: chapter_leaves_def x)
  show ?case
    by (simp add: x cl[unfolded x] Cons.IH verses_loop_emit emit_append
        split: option.splits sum.splits)
qed

lemma books_loop_emit:
  "books_loop repr data acc = andthen acc (emit repr (leaves data))"
proof (induction data arbitrary: acc)
  case Nil
  show ?case by (simp add: leaves_def)
next
  case (Cons x data)
  obtain b chapters where x: "x = (b, chapters)" by (cases x)
  have cl: "leaves (x # data) =
      (case dict_items chapters of None \<Rightarrow> [] | Some cs \<Rightarrow> chapter_leaves b cs) @ leaves data"
    by (simp add: leaves_def x)
  show ?case
    by (simp add: x cl[unfolded x] Cons.IH chapters_loop_emit emit_append
        split: option.splits sum.splits)
qed

lemma set_uniq [simp]: "set (uniq xs) = set xs"
  by (induction xs) auto

lemma distinct_uniq [simp]: "distinct (uniq xs)"
  by (induction xs) auto

lemma uniq_append: "uniq (xs @ ys) = uniq xs @ filter (\<lambda>y. y \<notin> set xs) (uniq ys)"
proof (induction xs)
  case Nil
  show ?case by simp
next
  case (Cons x xs)
  have "filter (\<lambda>y. y \<noteq> x) (filter (\<lambda>y. y \<notin> set xs) (uniq ys))
        = filter (\<lambda>y. y \<notin> set (x # xs)) (uniq ys)"
    by (auto intro: filter_cong)
  with Cons show ?case by simp
qed

lemma uniq_distinct: "distinct xs \<Longrightarrow> uniq xs = xs"
  by (induction xs) (auto simp: filter_id_conv)

lemma uniq_absorb: "distinct ks \<Longrightarrow> set xs \<subseteq> set ks \<Longrightarrow> uniq (ks @ xs) = ks"
  by (simp add: uniq_append uniq_distinct filter_empty_conv subset_iff)

lemma those_verse_records:
  "list_all is_verse_record rs \<Longrightarrow>
     those (map dict_items rs) = Some (map (\<lambda>r. case r of JDict kv \<Rightarrow> kv | _ \<Rightarrow> []) rs)"
  by (induction rs) (auto simp: is_verse_record_def verse_record_def)

lemma keys_verse_records:
  "list_all is_verse_record rs \<Longrightarrow>
     set (concat (map (map fst) (map (\<lambda>r. case r of JDict kv \<Rightarrow> kv | _ \<Rightarrow> []) rs)))
       \<subseteq> set canonical_columns"
  by (induction rs) (auto simp: is_verse_record_def verse_record_def canonical_columns_def)

lemma DataFrame_verse_records:
  assumes "list_all is_verse_record rs" and "rs \<noteq> []"
  shows "DataFrame rs = Inr \<lparr>columns = canonical_columns, rows = map record_cells rs\<rparr>"
proof -
  obtain r rest where rs: "rs = r # rest" using assms(2) by (cases rs) auto
  let ?items = "\<lambda>r. case r of JDict kv \<Rightarrow> kv | _ \<Rightarrow> []"
  have r: "map fst (?items r) = canonical_columns"
    using assms(1) by (auto simp: rs is_verse_record_def verse_record_def canonical_columns_def)
  have rest: "set (concat (map (map fst) (map ?items rest))) \<subseteq> set canonical_columns"
    using assms(1) by (intro keys_verse_records) (simp add: rs)
  have cols: "uniq (concat (map (map fst) (map ?items rs))) = canonical_columns"
    using uniq_absorb[OF _ rest] by (simp add: rs r canonical_columns_def)
  have rows: "map (record_row canonical_columns) (map ?items rs) = map record_cells rs"
    using assms(1) by (induction rs) (auto simp: is_verse_record_def verse_record_def)
  show ?thesis
    by (simp add: DataFrame_def those_verse_records[OF assms(1)] cols rows del: map_map)
qed

lemma emit_rows:
  "emit repr ls = Inr rs \<Longrightarrow>
     list_all is_verse_record rs \<and>
     list_all2 (\<lambda>l r. leaf_row repr l = Some r) ls (map record_cells rs)"
proof (induction ls arbitrary: rs)
  case Nil
  then show ?case by simp
next
  case (Cons l ls)
  obtain b c v t where l: "l = (b, c, v, t)" by (cases l)
  from Cons.prems obtain ci vi rs' where
    p: "py_int c = Some ci" "py_int v = Some vi" "emit repr ls = Inr rs'"
       "rs = verse_record b ci vi (py_str repr t) # rs'"
    by (auto simp: l split: option.splits sum.splits)
  have "record_cells (verse_record b ci vi (py_str repr t))
          = [Obj (JStr b), Obj (JInt ci), Obj (JInt vi), Obj (JStr (py_str repr t))]"
    by (simp add: verse_record_def record_row_def canonical_columns_def)
  with Cons.IH[OF p(3)] p show ?case
    by (auto simp: l leaf_row_def is_verse_record_def)
qed




lemma flatten_from_nested_emit:
  "flatten_from_nested repr data =
     (case emit repr (leaves data) of
        Inl e \<Rightarrow> Inl e
      | Inr rs \<Rightarrow>
          if rs = [] then Inl EmptyFlattenResult
          else Inr \<lparr>columns = canonical_columns, rows = map record_cells rs\<rparr>)"
  using emit_rows[of repr "leaves data"] DataFrame_verse_records
  by (auto simp: flatten_from_nested_def books_loop_emit split: sum.splits)



lemma py_int_1: "py_int ''1'' = Some 1"
  by (simp add: py_int_def strip_def is_space_def is_digit_def digit_val_def int_max_str_digits_def)

lemma py_int_2: "py_int ''2'' = Some 2"
  by (simp add: py_int_def strip_def is_space_def is_digit_def digit_val_def int_max_str_digits_def)

lemma leaves_genesis:
  "leaves genesis = [(''Genesis'', ''1'', ''1'', JStr ''a''), (''Genesis'', ''1'', ''2'', JStr ''b'')]"
  by (simp add: genesis_def leaves_def chapter_leaves_def)

lemma flatten_genesis:
  "flatten_from_nested repr genesis =
     Inr \<lparr>columns = [''book'', ''chapter'', ''verse'', ''text''],
          rows = [[Obj (JStr ''Genesis''), Obj (JInt 1), Obj (JInt 1), Obj (JStr ''a'')],
                  [Obj (JStr ''Genesis''), Obj (JInt 1), Obj (JInt 2), Obj (JStr ''b'')]]\<rparr>"
  by (simp add: flatten_from_nested_emit leaves_genesis py_int_1 py_int_2 canonical_columns_def
      verse_record_def record_row_def)

lemma flatten_from_nested_Inr:
  assumes "flatten_from_nested repr data = Inr df"
  shows "columns df = canonical_columns"
    and "list_all2 (\<lambda>l r. leaf_row repr l = Some r) (leaves data) (rows df)"
    and "rows df \<noteq> []"
proof -
  from assms obtain rs where rs: "emit repr (leaves data) = Inr rs" "rs \<noteq> []"
    and df: "df = \<lparr>columns = canonical_columns, rows = map record_cells rs\<rparr>"
    by (auto simp: flatten_from_nested_emit split: sum.splits if_splits)
  show "columns df = canonical_columns" by (simp add: df)
  show "list_all2 (\<lambda>l r. leaf_row repr l = Some r) (leaves data) (rows df)"
    using emit_rows[OF rs(1)] by (simp add: df)
  show "rows df \<noteq> []" using rs(2) by (simp add: df)
qed




text \<open>
  Claim C7. When the walk of a nested input produces zero records the nested flattener
  fails with \<open>EmptyFlattenResult\<close>, and so does the program: for the empty mapping,
  for a book whose value is no mapping, for a chapter whose value is no mapping. A frame
  it returns is never empty.
\<close>

theorem nested_flatten_empty_rejected:
  "(books_loop repr data [] = Inr [] \<longrightarrow> flatten_from_nested repr data = Inl EmptyFlattenResult)
   \<and> (leaves data = [] \<longrightarrow>
        flatten_from_nested repr data = Inl EmptyFlattenResult \<and>
        main repr parse (Some (JDict data)) = Inl EmptyFlattenResult)
   \<and> (flatten_from_nested repr data = Inr df \<longrightarrow> rows df \<noteq> [])
   \<and> flatten_from_nested repr [] = Inl EmptyFlattenResult
   \<and> flatten_from_nested repr [(''Genesis'', JInt 5)] = Inl EmptyFlattenResult
   \<and> flatten_from_nested repr [(''Genesis'', JDict [(''1'', JStr ''In the beginning'')])]
        = Inl EmptyFlattenResult"
proof (intro conjI impI)
  assume "books_loop repr data [] = Inr []"
  then show "flatten_from_nested repr data = Inl EmptyFlattenResult"
    by (simp add: flatten_from_nested_def)
next
  assume e: "leaves data = []"
  then show "flatten_from_nested repr data = Inl EmptyFlattenResult"
    by (simp add: flatten_from_nested_emit)
  then show "main repr parse (Some (JDict data)) = Inl EmptyFlattenResult"
    by (simp add: main_def detect_and_flatten_def)
next
  assume "flatten_from_nested repr data = Inr df"
  then show "rows df \<noteq> []" by (rule flatten_from_nested_Inr(3))
next
  show "flatten_from_nested repr [] = Inl EmptyFlattenResult"
    by (simp add: flatten_from_nested_def)
  show "flatten_from_nested repr [(''Genesis'', JInt 5)] = Inl EmptyFlattenResult"
    by (simp add: flatten_from_nested_def)
  show "flatten_from_nested repr [(''Genesis'', JDict [(''1'', JStr ''In the beginning'')])]
        = Inl EmptyFlattenResult"
    by (simp add: flatten_from_nested_def)
qed

theorem nested_flatten_empty_rejected_witness:
  "books_loop no_repr [(''Genesis'', JDict [])] [] = Inr []
   \<and> leaves [(''Genesis'', JDict [])] = []
   \<and> flatten_from_nested no_repr [(''Genesis'', JDict [])] = Inl EmptyFlattenResult
   \<and> main no_repr decimal_parse (Some (JDict [(''Genesis'', JDict [])])) = Inl EmptyFlattenResult
   \<and> flatten_from_nested no_repr genesis = Inr genesis_frame
   \<and> rows genesis_frame \<noteq> []"
proof -
  note t = nested_flatten_empty_rejected[where repr = no_repr and parse = decimal_parse]
  have a: "books_loop no_repr [(''Genesis'', JDict [])] [] = Inr []" by simp
  have b: "leaves [(''Genesis'', JDict [])] = []" by (simp add: leaves_def chapter_leaves_def)
  have c: "flatten_from_nested no_repr genesis = Inr genesis_frame"
    by (simp add: flatten_genesis genesis_frame_def)
  note u = t[where data = "[(''Genesis'', JDict [])]" and df = genesis_frame]
    and w = t[where data = genesis and df = genesis_frame]
  note e1 = u[THEN conjunct1, THEN mp, OF a]
    and e2 = u[THEN conjunct2, THEN conjunct1, THEN mp, OF b, THEN conjunct2]
    and e3 = w[THEN conjunct2, THEN conjunct2, THEN conjunct1, THEN mp, OF c]
  show ?thesis
    by (intro conjI) (rule a b c e1 e2 e3)+
qed





lemma collect_Inr: "collect xs = Inr vs \<Longrightarrow> xs = map Inr vs"
  by (induction xs arbitrary: vs) (auto split: sum.splits)

lemma collect_map_Inr:
  "collect (map f xs) = Inr vs \<Longrightarrow> length vs = length xs \<and> (\<forall>i < length xs. f (xs ! i) = Inr (vs ! i))"
proof -
  assume "collect (map f xs) = Inr vs"
  then have m: "map f xs = map Inr vs" by (rule collect_Inr)
  then have l: "length vs = length xs" by (metis length_map)
  moreover have "\<forall>i < length xs. f (xs ! i) = Inr (vs ! i)"
  proof (intro allI impI)
    fix i assume "i < length xs"
    then show "f (xs ! i) = Inr (vs ! i)"
      using m l by (metis nth_map)
  qed
  ultimately show ?thesis by simp
qed






lemma coerce_column_Inr:
  assumes "coerce_column parse col df = Inr df'"
  shows "columns df' = columns df"
    and "length (rows df') = length (rows df)"
    and "\<forall>i < length (rows df). \<exists>v. to_Int64 parse col (cell_at (columns df) (rows df ! i) col) = Inr v
            \<and> rows df' ! i = set_cell (columns df) col (rows df ! i) v"
    and "count_list (columns df) col = 1"
proof -
  from assms obtain vs where
    c: "collect (map (\<lambda>r. to_Int64 parse col (cell_at (columns df) r col)) (rows df)) = Inr vs"
    and df': "df' = df\<lparr>rows := map2 (set_cell (columns df) col) (rows df) vs\<rparr>"
    and cnt: "count_list (columns df) col = 1"
    by (auto simp: coerce_column_def split: if_splits sum.splits)
  from collect_map_Inr[OF c] have l: "length vs = length (rows df)"
    and v: "\<forall>i < length (rows df). to_Int64 parse col (cell_at (columns df) (rows df ! i) col) = Inr (vs ! i)"
    by auto
  show "columns df' = columns df" by (simp add: df')
  show "length (rows df') = length (rows df)" by (simp add: df' l)
  show "\<forall>i < length (rows df). \<exists>v. to_Int64 parse col (cell_at (columns df) (rows df ! i) col) = Inr v
            \<and> rows df' ! i = set_cell (columns df) col (rows df ! i) v"
    using v l by (simp add: df')
  show "count_list (columns df) col = 1" by (rule cnt)
qed



lemma sort_values_Inr:
  assumes "sort_values df = Inr df'"
  shows "columns df' = columns df"
    and "rows df' = sort_key (row_key (columns df)) (rows df)"
  using assms by (auto simp: sort_values_def split: list.splits if_splits)

lemma insert_id_Inr:
  assumes "insert_id df = Inr df'"
  shows "columns df' = ''id'' # columns df"
    and "rows df' = map2 (\<lambda>i r. I64 (int i) # r) [0 ..< length (rows df)] (rows df)"
  using assms by (auto simp: insert_id_def split: if_splits)


lemma normalizer_Inr:
  assumes "normalizer parse df = Inr out"
  obtains df1 df2 where
    "coerce_column parse ''chapter'' df = Inr df1"
    "coerce_column parse ''verse'' df1 = Inr df2"
    "columns out = ''id'' # columns df"
    "rows out = map2 (\<lambda>i r. I64 (int i) # r) [0 ..< length (rows df)]
                  (sort_key (row_key (columns df)) (rows df2))"
    "columns df2 = columns df" "length (rows df2) = length (rows df)"
proof -
  from assms obtain df1 df2 df3 where
    1: "coerce_column parse ''chapter'' df = Inr df1" and
    2: "coerce_column parse ''verse'' df1 = Inr df2" and
    3: "sort_values df2 = Inr df3" and
    4: "insert_id df3 = Inr out"
    by (auto simp: normalizer_def split: sum.splits)
  note c1 = coerce_column_Inr[OF 1] and c2 = coerce_column_Inr[OF 2]
    and s = sort_values_Inr[OF 3] and i = insert_id_Inr[OF 4]
  show ?thesis
    by (rule that[OF 1 2]) (simp_all add: c1 c2 s i)
qed






lemma flatten_unsorted3:
  "flatten_from_list unsorted3 =
     Inr \<lparr>columns = [''book'', ''chapter'', ''verse'', ''text''],
          rows = [[Obj (JStr ''B''), Obj (JInt 2), Obj (JInt 1), Obj (JStr ''x'')],
                  [Obj (JStr ''A''), Obj (JInt 1), Obj (JInt 5), Obj (JStr ''y'')],
                  [Obj (JStr ''A''), Obj (JInt 1), Obj (JInt 1), Obj (JStr ''z'')]]\<rparr>"
  by (simp add: unsorted3_def flatten_from_list_def DataFrame_def record_row_def rename_def
      rename_map_def required_def select_columns_def pick_def)

lemma normalizer_unsorted3:
  "normalizer parse
     \<lparr>columns = [''book'', ''chapter'', ''verse'', ''text''],
      rows = [[Obj (JStr ''B''), Obj (JInt 2), Obj (JInt 1), Obj (JStr ''x'')],
              [Obj (JStr ''A''), Obj (JInt 1), Obj (JInt 5), Obj (JStr ''y'')],
              [Obj (JStr ''A''), Obj (JInt 1), Obj (JInt 1), Obj (JStr ''z'')]]\<rparr>
   = Inr \<lparr>columns = [''id'', ''book'', ''chapter'', ''verse'', ''text''],
          rows = [[I64 0, Obj (JStr ''A''), I64 1, I64 1, Obj (JStr ''z'')],
                  [I64 1, Obj (JStr ''A''), I64 1, I64 5, Obj (JStr ''y'')],
                  [I64 2, Obj (JStr ''B''), I64 2, I64 1, Obj (JStr ''x'')]]\<rparr>"
  by (simp add: normalizer_def coerce_column_def cell_at_def set_cell_def exact_int_def
      sort_values_def row_key_def insert_id_def upt_rec)























lemma those_dict_items:
  "list_all is_dict data \<Longrightarrow> those (map dict_items data) = Some (map items_of data)"
proof (induction data)
  case Nil
  show ?case by simp
next
  case (Cons x data)
  then show ?case by (cases x) simp_all
qed

lemma those_dict_items_None:
  "\<not> list_all is_dict data \<Longrightarrow> those (map dict_items data) = None"
proof (induction data)
  case Nil
  then show ?case by simp
next
  case (Cons x data)
  then show ?case by (cases x) (auto split: option.splits)
qed

lemma DataFrame_dicts:
  "list_all is_dict data \<Longrightarrow>
     DataFrame data = Inr \<lparr>columns = observed_fields data,
                           rows = map (\<lambda>x. record_row (observed_fields data) (items_of x)) data\<rparr>"
  by (simp add: DataFrame_def those_dict_items observed_fields_def comp_def Let_def)

lemma DataFrame_Inr_dicts: "DataFrame data = Inr df \<Longrightarrow> list_all is_dict data"
  by (cases "list_all is_dict data") (simp_all add: DataFrame_def those_dict_items_None)

lemma map_of_filter_keys:
  "map_of (filter (\<lambda>(old, new). P old) m) c = (if P c then map_of m c else None)"
  by (induction m) auto

lemma rename_active:
  "rename (filter (\<lambda>(old, new). old \<in> set (columns df)) rename_map) df
     = df\<lparr>columns := map canonical (columns df)\<rparr>"
proof -
  have "map (\<lambda>c. case map_of (filter (\<lambda>(old, new). old \<in> set (columns df)) rename_map) c of
                    Some n \<Rightarrow> n | None \<Rightarrow> c) (columns df)
        = map canonical (columns df)"
    by (rule map_cong) (simp_all add: map_of_filter_keys canonical_def)
  then show ?thesis by (simp add: rename_def)
qed

lemma select_columns_present:
  "set ls \<subseteq> set (columns df) \<Longrightarrow>
     select_columns ls df =
       Inr \<lparr>columns = pick ls (columns df) (columns df),
            rows = map (pick ls (columns df)) (rows df)\<rparr>"
proof -
  assume "set ls \<subseteq> set (columns df)"
  then have "filter (\<lambda>l. l \<notin> set (columns df)) ls = []"
    by (auto simp: filter_empty_conv)
  then show ?thesis by (simp add: select_columns_def)
qed

lemma required_set: "required = set [''book'', ''chapter'', ''verse'', ''text'']"
  by (auto simp: required_def)

lemma flatten_from_list_dicts:
  assumes "list_all is_dict data"
  shows "flatten_from_list data =
     (if required \<subseteq> set (map canonical (observed_fields data))
      then Inr \<lparr>columns = pick [''book'', ''chapter'', ''verse'', ''text'']
                           (map canonical (observed_fields data)) (map canonical (observed_fields data)),
                rows = map (pick [''book'', ''chapter'', ''verse'', ''text'']
                           (map canonical (observed_fields data))) (rows (canonical_frame data))\<rparr>
      else Inl (MissingRequiredFields (required - set (map canonical (observed_fields data)))
                  (map canonical (observed_fields data))))"
proof -
  let ?df0 = "\<lparr>columns = observed_fields data,
                rows = map (\<lambda>x. record_row (observed_fields data) (items_of x)) data\<rparr>"
  have r: "rename (filter (\<lambda>(old, new). old \<in> set (columns ?df0)) rename_map) ?df0
            = canonical_frame data"
    by (simp only: rename_active) (simp add: canonical_frame_def)
  show ?thesis
  proof (cases "required \<subseteq> set (map canonical (observed_fields data))")
    case True
    then have s: "set [''book'', ''chapter'', ''verse'', ''text''] \<subseteq> set (columns (canonical_frame data))"
      by (simp only: required_set canonical_frame_def frame.simps)
    from True have e: "required - set (columns (canonical_frame data)) = {}"
      by (simp add: canonical_frame_def)
    show ?thesis
      using True
      by (simp only: flatten_from_list_def DataFrame_dicts[OF assms] sum.case r Let_def e
          select_columns_present[OF s])
         (simp add: canonical_frame_def)
  next
    case False
    then have e: "required - set (columns (canonical_frame data)) \<noteq> {}"
      by (auto simp: canonical_frame_def)
    show ?thesis
      using False
      by (simp only: flatten_from_list_def DataFrame_dicts[OF assms] sum.case r Let_def e)
         (simp add: canonical_frame_def)
  qed
qed

lemma flatten_from_list_not_dicts:
  "\<not> list_all is_dict data \<Longrightarrow>
     flatten_from_list data = Inl (Unmodelled ''DataFrame over rows that are not mappings'')"
  by (simp add: flatten_from_list_def DataFrame_def those_dict_items_None)

text \<open>
  Claim C3. The shape detector dispatches on the root once: a sequence goes to the list
  flattener, a mapping to the nested flattener, and any other root fails with
  \<open>UnsupportedShape\<close> carrying the root's runtime type; the result for a sequence does
  not involve the nested flattener and conversely.
\<close>

theorem shape_detector_dispatch:
  "detect_and_flatten repr (JList xs) = flatten_from_list xs
   \<and> detect_and_flatten repr (JDict kv) = flatten_from_nested repr kv
   \<and> detect_and_flatten repr JNull = Inl (UnsupportedShape TNone)
   \<and> detect_and_flatten repr (JBool b) = Inl (UnsupportedShape TBool)
   \<and> detect_and_flatten repr (JInt i) = Inl (UnsupportedShape TInt)
   \<and> detect_and_flatten repr (JFloat f) = Inl (UnsupportedShape TFloat)
   \<and> detect_and_flatten repr (JStr s) = Inl (UnsupportedShape TStr)
   \<and> main repr parse (Some JNull) = Inl (UnsupportedShape (type_of JNull))
   \<and> main repr parse (Some (JBool b)) = Inl (UnsupportedShape (type_of (JBool b)))
   \<and> main repr parse (Some (JInt i)) = Inl (UnsupportedShape (type_of (JInt i)))
   \<and> main repr parse (Some (JFloat f)) = Inl (UnsupportedShape (type_of (JFloat f)))
   \<and> main repr parse (Some (JStr s)) = Inl (UnsupportedShape (type_of (JStr s)))
   \<and> main repr parse (Some (JList xs)) =
        (case flatten_from_list xs of Inl e \<Rightarrow> Inl e | Inr df \<Rightarrow> normalizer parse df)
   \<and> main repr parse (Some (JDict kv)) =
        (case flatten_from_nested repr kv of Inl e \<Rightarrow> Inl e | Inr df \<Rightarrow> normalizer parse df)"
  by (simp add: main_def detect_and_flatten_def)

lemma normalizer_length:
  "normalizer parse df = Inr out \<Longrightarrow> length (rows out) = length (rows df)"
proof -
  assume a: "normalizer parse df = Inr out"
  from a obtain df1 df2 where
    "coerce_column parse ''chapter'' df = Inr df1"
    "coerce_column parse ''verse'' df1 = Inr df2"
    "columns out = ''id'' # columns df"
    and r: "rows out = map2 (\<lambda>i r. I64 (int i) # r) [0 ..< length (rows df)]
                  (sort_key (row_key (columns df)) (rows df2))"
    and "columns df2 = columns df" and l: "length (rows df2) = length (rows df)"
    by (rule normalizer_Inr)
  show ?thesis by (simp add: r l)
qed

lemma flatten_from_list_length:
  assumes "flatten_from_list xs = Inr df"
  shows "length (rows df) = length xs" and "xs \<noteq> []"
proof -
  have d: "list_all is_dict xs"
    using assms flatten_from_list_not_dicts[of xs] by (cases "list_all is_dict xs") auto
  from assms show "length (rows df) = length xs"
    by (auto simp: flatten_from_list_dicts[OF d] canonical_frame_def split: if_splits)
  show "xs \<noteq> []"
  proof
    assume "xs = []"
    with assms show False
      by (simp add: flatten_from_list_dicts observed_fields_def required_def)
  qed
qed

text \<open>
  Claim C10. For the empty sequence the list flattener and the program fail with
  \<open>MissingRequiredFields\<close>, all four canonical fields missing and no column seen. A
  table the list path writes has as many rows as the input has records, at least one.
\<close>

theorem empty_list_rejected:
  "flatten_from_list [] = Inl (MissingRequiredFields {''book'', ''chapter'', ''verse'', ''text''} [])
   \<and> main repr parse (Some (JList [])) =
        Inl (MissingRequiredFields {''book'', ''chapter'', ''verse'', ''text''} [])
   \<and> (main repr parse (Some (JList xs)) = Inr out \<longrightarrow>
        xs \<noteq> [] \<and> length (rows out) = length xs \<and> rows out \<noteq> [])"
proof (intro conjI impI)
  show e: "flatten_from_list [] = Inl (MissingRequiredFields {''book'', ''chapter'', ''verse'', ''text''} [])"
    by (simp add: flatten_from_list_dicts observed_fields_def required_def)
  then show "main repr parse (Some (JList [])) =
        Inl (MissingRequiredFields {''book'', ''chapter'', ''verse'', ''text''} [])"
    by (simp add: main_def detect_and_flatten_def)
next
  assume a: "main repr parse (Some (JList xs)) = Inr out"
  then obtain df where f: "flatten_from_list xs = Inr df" and n: "normalizer parse df = Inr out"
    by (auto simp: main_def detect_and_flatten_def split: sum.splits)
  note fl = flatten_from_list_length[OF f]
  show "xs \<noteq> []" by (rule fl(2))
  show l: "length (rows out) = length xs" using normalizer_length[OF n] fl(1) by simp
  show "rows out \<noteq> []" using l fl(2) by auto
qed








theorem empty_list_rejected_witness:
  "main no_repr decimal_parse (Some (JList unsorted3)) = Inr sorted3_out
   \<and> unsorted3 \<noteq> []
   \<and> length (rows sorted3_out) = length unsorted3
   \<and> rows sorted3_out \<noteq> []"
proof -
  have m: "main no_repr decimal_parse (Some (JList unsorted3)) = Inr sorted3_out"
    using flatten_unsorted3 normalizer_unsorted3[of decimal_parse]
    by (simp add: main_def detect_and_flatten_def sorted3_out_def)
  from m empty_list_rejected[where repr = no_repr and parse = decimal_parse and xs = unsorted3
      and out = sorted3_out]
  show ?thesis by blast
qed


lemma uniq_map_inj: "inj_on f (set xs) \<Longrightarrow> uniq (map f xs) = map f (uniq xs)"
proof (induction xs)
  case Nil
  show ?case by simp
next
  case (Cons x xs)
  have i: "inj_on f (set xs)" using Cons.prems by (simp add: inj_on_def)
  have "filter (\<lambda>y. y \<noteq> f x) (map f (uniq xs)) = map f (filter (\<lambda>y. y \<noteq> x) (uniq xs))"
    unfolding filter_map comp_def
    by (rule arg_cong[where f = "map f"], rule filter_cong) (use Cons.prems in \<open>auto simp: inj_on_def\<close>)
  then show ?case by (simp add: Cons.IH[OF i])
qed

lemma swap_key_inj: "a \<notin> K \<Longrightarrow> inj_on (swap_key c a) K"
  by (auto simp: inj_on_def swap_key_def split: if_splits)

lemma alias_target_required: "map_of rename_map a = Some c \<Longrightarrow> c \<in> required"
proof -
  assume "map_of rename_map a = Some c"
  then have "(a, c) \<in> set rename_map" by (rule map_of_SomeD)
  then have "c \<in> snd ` set rename_map" by force
  also have "snd ` set rename_map = required"
    by (simp add: rename_map_def required_def)
  finally show ?thesis .
qed

lemma required_not_alias: "c \<in> required \<Longrightarrow> map_of rename_map c = None"
  unfolding required_def by (elim insertE emptyE) (simp_all add: rename_map_def)

lemma alias_target_not_alias: "map_of rename_map a = Some c \<Longrightarrow> map_of rename_map c = None"
  by (rule required_not_alias) (rule alias_target_required)

lemma canonical_swap_key:
  "map_of rename_map a = Some c \<Longrightarrow> canonical (swap_key c a k) = canonical k"
  using alias_target_not_alias[of a c] by (simp add: canonical_def swap_key_def)

lemma items_use_alias:
  "items_of (use_alias c a x) = map (\<lambda>(k, v). (swap_key c a k, v)) (items_of x)"
  by (cases x) simp_all

lemma is_dict_use_alias: "is_dict (use_alias c a x) = is_dict x"
  by (cases x) simp_all

lemma keys_use_alias:
  "concat (map (\<lambda>x. map fst (items_of x)) (map (use_alias c a) data))
     = map (swap_key c a) (concat (map (\<lambda>x. map fst (items_of x)) data))"
  by (induction data) (auto simp: items_use_alias)

lemma observed_use_alias:
  assumes "a \<notin> set (observed_fields data)"
  shows "observed_fields (map (use_alias c a) data) = map (swap_key c a) (observed_fields data)"
proof -
  from assms have "a \<notin> set (concat (map (\<lambda>x. map fst (items_of x)) data))"
    by (simp add: observed_fields_def)
  then have "inj_on (swap_key c a) (set (concat (map (\<lambda>x. map fst (items_of x)) data)))"
    by (rule swap_key_inj)
  then show ?thesis
    by (simp only: observed_fields_def keys_use_alias uniq_map_inj)
qed

lemma map_of_swap_key:
  assumes "inj_on f (insert k (fst ` set kv))"
  shows "map_of (map (\<lambda>(k, v). (f k, v)) kv) (f k) = map_of kv k"
  using assms
proof (induction kv)
  case Nil
  show ?case by simp
next
  case (Cons p kv)
  obtain k' v' where p: "p = (k', v')" by (cases p)
  have i: "inj_on f (insert k (fst ` set kv))"
    using Cons.prems by (auto simp: inj_on_def)
  have e: "f k = f k' \<longleftrightarrow> k = k'"
    using Cons.prems by (auto simp: inj_on_def p)
  show ?case by (simp add: p e Cons.IH[OF i])
qed

lemma record_row_swap_key:
  assumes "inj_on f (set cols \<union> fst ` set kv)"
  shows "record_row (map f cols) (map (\<lambda>(k, v). (f k, v)) kv) = record_row cols kv"
proof -
  have "\<And>c. c \<in> set cols \<Longrightarrow> map_of (map (\<lambda>(k, v). (f k, v)) kv) (f c) = map_of kv c"
  proof -
    fix c assume "c \<in> set cols"
    then have "inj_on f (insert c (fst ` set kv))"
      using assms by (auto simp: inj_on_def)
    then show "map_of (map (\<lambda>(k, v). (f k, v)) kv) (f c) = map_of kv c"
      by (rule map_of_swap_key)
  qed
  then show ?thesis by (simp add: record_row_def)
qed

lemma keys_observed: "x \<in> set data \<Longrightarrow> fst ` set (items_of x) \<subseteq> set (observed_fields data)"
  by (auto simp: observed_fields_def)

lemma rows_use_alias:
  assumes "a \<notin> set (observed_fields data)"
  shows "rows (canonical_frame (map (use_alias c a) data)) = rows (canonical_frame data)"
proof -
  have "\<And>x. x \<in> set data \<Longrightarrow>
      record_row (map (swap_key c a) (observed_fields data))
        (map (\<lambda>(k, v). (swap_key c a k, v)) (items_of x))
      = record_row (observed_fields data) (items_of x)"
  proof -
    fix x assume "x \<in> set data"
    from keys_observed[OF this] assms
    have "a \<notin> set (observed_fields data) \<union> fst ` set (items_of x)" by auto
    then have "inj_on (swap_key c a) (set (observed_fields data) \<union> fst ` set (items_of x))"
      by (rule swap_key_inj)
    then show "record_row (map (swap_key c a) (observed_fields data))
        (map (\<lambda>(k, v). (swap_key c a k, v)) (items_of x))
      = record_row (observed_fields data) (items_of x)"
      by (rule record_row_swap_key)
  qed
  then show ?thesis
    by (simp add: canonical_frame_def observed_use_alias[OF assms] items_use_alias)
qed

lemma columns_use_alias:
  assumes "map_of rename_map a = Some c" and "a \<notin> set (observed_fields data)"
  shows "map canonical (observed_fields (map (use_alias c a) data))
           = map canonical (observed_fields data)"
  by (simp add: observed_use_alias[OF assms(2)] canonical_swap_key[OF assms(1)])

lemma flatten_use_alias:
  assumes "map_of rename_map a = Some c" and "list_all is_dict data"
    and "a \<notin> set (observed_fields data)"
  shows "flatten_from_list (map (use_alias c a) data) = flatten_from_list data"
proof -
  have d: "list_all is_dict (map (use_alias c a) data)"
    using assms(2) by (simp add: list_all_iff is_dict_use_alias)
  show ?thesis
    by (simp only: flatten_from_list_dicts[OF d] flatten_from_list_dicts[OF assms(2)]
        columns_use_alias[OF assms(1,3)] rows_use_alias[OF assms(3)])
qed

lemma flatten_mixed2:
  "flatten_from_list mixed2 =
     Inr \<lparr>columns = [''book'', ''book'', ''chapter'', ''verse'', ''text''],
          rows = [[Obj (JStr ''A''), NA, Obj (JInt 1), Obj (JInt 1), Obj (JStr ''p'')],
                  [NA, Obj (JStr ''B''), Obj (JInt 1), Obj (JInt 1), Obj (JStr ''q'')]]\<rparr>"
  by (simp add: mixed2_def flatten_from_list_def DataFrame_def record_row_def rename_def
      rename_map_def required_def select_columns_def pick_def)

lemma flatten_canon2:
  "flatten_from_list canon2 =
     Inr \<lparr>columns = [''book'', ''chapter'', ''verse'', ''text''],
          rows = [[Obj (JStr ''A''), Obj (JInt 1), Obj (JInt 1), Obj (JStr ''p'')],
                  [Obj (JStr ''B''), Obj (JInt 1), Obj (JInt 1), Obj (JStr ''q'')]]\<rparr>"
  by (simp add: canon2_def flatten_from_list_def DataFrame_def record_row_def rename_def
      rename_map_def required_def select_columns_def pick_def)

theorem mixed_alias_counterexample:
  "flatten_from_list mixed2 =
     Inr \<lparr>columns = [''book'', ''book'', ''chapter'', ''verse'', ''text''],
          rows = [[Obj (JStr ''A''), NA, Obj (JInt 1), Obj (JInt 1), Obj (JStr ''p'')],
                  [NA, Obj (JStr ''B''), Obj (JInt 1), Obj (JInt 1), Obj (JStr ''q'')]]\<rparr>
   \<and> flatten_from_list canon2 =
     Inr \<lparr>columns = [''book'', ''chapter'', ''verse'', ''text''],
          rows = [[Obj (JStr ''A''), Obj (JInt 1), Obj (JInt 1), Obj (JStr ''p'')],
                  [Obj (JStr ''B''), Obj (JInt 1), Obj (JInt 1), Obj (JStr ''q'')]]\<rparr>
   \<and> flatten_from_list mixed2 \<noteq> flatten_from_list canon2"
  by (simp add: flatten_mixed2 flatten_canon2)

lemma canonical_id:
  "\<forall>k \<in> set ks. map_of rename_map k = None \<Longrightarrow> map canonical ks = ks"
  by (induction ks) (simp_all add: canonical_def)

text \<open>
  Claim C4, as amended. The alias table is fixed and case-sensitive and maps \<^verbatim>\<open>Book\<close>,
  \<^verbatim>\<open>book_name\<close>, \<^verbatim>\<open>bookName\<close> to book, \<^verbatim>\<open>Chapter\<close>, \<^verbatim>\<open>chapterNumber\<close> to chapter,
  \<^verbatim>\<open>Verse\<close>, \<^verbatim>\<open>verseNumber\<close> to verse and \<^verbatim>\<open>Text\<close>, \<^verbatim>\<open>verseText\<close>, \<^verbatim>\<open>content\<close> to
  text. For two sequences of mappings that differ only in that one of them uses a
  recognised alias in place of its canonical field name in every record, the alias not
  occurring in the other, the list flattener yields the same table and the program the same
  result. Where no observed field is an alias the renaming changes nothing.
\<close>

theorem alias_equivalence:
  "(map_of rename_map a = Some c \<and> list_all is_dict data \<and> a \<notin> set (observed_fields data) \<longrightarrow>
      flatten_from_list (map (use_alias c a) data) = flatten_from_list data
    \<and> main repr parse (Some (JList (map (use_alias c a) data)))
        = main repr parse (Some (JList data)))
   \<and> map_of rename_map ''Book'' = Some ''book''
   \<and> map_of rename_map ''book_name'' = Some ''book''
   \<and> map_of rename_map ''bookName'' = Some ''book''
   \<and> map_of rename_map ''Chapter'' = Some ''chapter''
   \<and> map_of rename_map ''chapterNumber'' = Some ''chapter''
   \<and> map_of rename_map ''Verse'' = Some ''verse''
   \<and> map_of rename_map ''verseNumber'' = Some ''verse''
   \<and> map_of rename_map ''Text'' = Some ''text''
   \<and> map_of rename_map ''verseText'' = Some ''text''
   \<and> map_of rename_map ''content'' = Some ''text''
   \<and> map_of rename_map ''BOOK'' = None
   \<and> map_of rename_map ''chapternumber'' = None
   \<and> map_of rename_map ''book'' = None
   \<and> map_of rename_map ''chapter'' = None
   \<and> map_of rename_map ''verse'' = None
   \<and> map_of rename_map ''text'' = None
   \<and> (list_all is_dict data \<and> (\<forall>k \<in> set (observed_fields data). map_of rename_map k = None) \<longrightarrow>
        map canonical (observed_fields data) = observed_fields data
      \<and> DataFrame data = Inr (canonical_frame data))"
proof (intro conjI impI)
  assume h: "map_of rename_map a = Some c \<and> list_all is_dict data \<and> a \<notin> set (observed_fields data)"
  then show e: "flatten_from_list (map (use_alias c a) data) = flatten_from_list data"
    by (intro flatten_use_alias) simp_all
  show "main repr parse (Some (JList (map (use_alias c a) data)))
        = main repr parse (Some (JList data))"
    by (simp only: main_def detect_and_flatten_def option.case json.case e)
next
  assume h: "list_all is_dict data \<and> (\<forall>k \<in> set (observed_fields data). map_of rename_map k = None)"
  then show m: "map canonical (observed_fields data) = observed_fields data"
    by (intro canonical_id) simp
  from h have d: "list_all is_dict data" by simp
  show "DataFrame data = Inr (canonical_frame data)"
    by (simp only: DataFrame_dicts[OF d] canonical_frame_def m)
qed (simp_all add: rename_map_def)

lemma use_alias_canon2: "map (use_alias ''book'' ''Book'') canon2 = alias2"
  by (simp add: canon2_def alias2_def swap_key_def)

lemma observed_canon2: "observed_fields canon2 = [''book'', ''chapter'', ''verse'', ''text'']"
  by (simp add: canon2_def observed_fields_def)

theorem alias_equivalence_witness:
  "map_of rename_map ''Book'' = Some ''book''
   \<and> list_all is_dict canon2
   \<and> ''Book'' \<notin> set (observed_fields canon2)
   \<and> flatten_from_list alias2 = flatten_from_list canon2
   \<and> main no_repr decimal_parse (Some (JList alias2)) = main no_repr decimal_parse (Some (JList canon2))
   \<and> map canonical (observed_fields canon2) = observed_fields canon2
   \<and> DataFrame canon2 = Inr (canonical_frame canon2)"
proof -
  note t = alias_equivalence[where a = "''Book''" and c = "''book''" and data = canon2
      and repr = no_repr and parse = decimal_parse]
  have a: "map_of rename_map ''Book'' = Some ''book''" by (simp add: rename_map_def)
  have d: "list_all is_dict canon2" by (simp add: canon2_def)
  have n: "''Book'' \<notin> set (observed_fields canon2)" by (simp add: observed_canon2)
  have k: "\<forall>k \<in> set (observed_fields canon2). map_of rename_map k = None"
    by (simp add: observed_canon2 rename_map_def)
  note e = t[THEN conjunct1, THEN mp, OF conjI[OF a conjI[OF d n]], unfolded use_alias_canon2]
  have l: "list_all is_dict canon2 \<and> (\<forall>k \<in> set (observed_fields canon2). map_of rename_map k = None) \<longrightarrow>
        map canonical (observed_fields canon2) = observed_fields canon2
      \<and> DataFrame canon2 = Inr (canonical_frame canon2)"
    using t by (elim conjE)
  note l' = l[THEN mp, OF conjI[OF d k]]
  show ?thesis
    by (intro conjI) (rule a d n e[THEN conjunct1] e[THEN conjunct2] l'[THEN conjunct1] l'[THEN conjunct2])+
qed

end
